theory Spec2Isabelle
  imports Main "HOL-Library.Sublist"
begin

section \<open>Text: Python strings, \<open>str.strip\<close> and the three regular expressions\<close>

text \<open>
  A Python \<open>str\<close> is modelled as a \<open>string\<close> whose characters are the code points
  below 256. \<open>NL\<close> is the line feed, the only character that \<open>.\<close> does not match
  when \<open>re.DOTALL\<close> is off.
\<close>

definition NL :: char where
  "NL = CHR 0x0A"

text \<open>
  \<open>str.isspace\<close> on the code points below 256: tab to carriage return, the four
  separators 0x1C to 0x1F, the space, NEL (0x85) and the no-break space (0xA0).
\<close>

definition is_space :: "char \<Rightarrow> bool" where
  "is_space c =
     (let n = (of_char c :: nat)
      in (9 \<le> n \<and> n \<le> 13) \<or> (28 \<le> n \<and> n \<le> 31) \<or> n = 32 \<or> n = 133 \<or> n = 160)"

text \<open>\<open>s.strip()\<close>: leading and trailing whitespace removed.\<close>

definition strip :: "string \<Rightarrow> string" where
  "strip s = rev (dropWhile is_space (rev (dropWhile is_space s)))"

text \<open>\<open>sub in s\<close> on strings.\<close>

fun contains :: "string \<Rightarrow> string \<Rightarrow> bool" where
  "contains sub [] = (sub = [])"
| "contains sub (c # cs) = (prefix sub (c # cs) \<or> contains sub cs)"

text \<open>
  The three patterns of \<open>completion\<close> have one shape: a literal, the lazy group
  \<open>(.*?)\<close>, a literal. \<open>lazy_group dotall closing s\<close> matches the group and the
  closing literal at the start of \<open>s\<close> the way the backtracking matcher does: the
  group is tried empty first and grows by one character at a time, and without
  \<open>re.DOTALL\<close> it cannot grow over a line feed. The result is the group and the text
  left after the closing literal.
\<close>

fun lazy_group :: "bool \<Rightarrow> string \<Rightarrow> string \<Rightarrow> (string \<times> string) option" where
  "lazy_group dotall closing [] = (if closing = [] then Some ([], []) else None)"
| "lazy_group dotall closing (c # cs) =
     (if prefix closing (c # cs) then Some ([], drop (length closing) (c # cs))
      else if \<not> dotall \<and> c = NL then None
      else (case lazy_group dotall closing cs of
              None \<Rightarrow> None
            | Some (g, rest) \<Rightarrow> Some (c # g, rest)))"

text \<open>The whole pattern tried at the start of \<open>s\<close>.\<close>

definition match_here :: "bool \<Rightarrow> string \<Rightarrow> string \<Rightarrow> string \<Rightarrow> (string \<times> string) option" where
  "match_here dotall opening closing s =
     (if prefix opening s then lazy_group dotall closing (drop (length opening) s) else None)"

text \<open>
  \<open>re.search(p, s)\<close> followed by \<open>.group(1)\<close>: the start positions are tried from
  left to right and the first one where the pattern matches wins; \<open>None\<close> is Python's
  \<open>None\<close> (no match).
\<close>

fun re_search :: "bool \<Rightarrow> string \<Rightarrow> string \<Rightarrow> string \<Rightarrow> string option" where
  "re_search dotall opening closing [] = map_option fst (match_here dotall opening closing [])"
| "re_search dotall opening closing (c # cs) =
     (case match_here dotall opening closing (c # cs) of
        Some (g, rest) \<Rightarrow> Some g
      | None \<Rightarrow> re_search dotall opening closing cs)"

text \<open>
  \<open>re.findall(p, s)\<close> for a pattern with one group: the groups of the successive
  non-overlapping matches, left to right; after a match the scan goes on where the
  match ended. The recursion carries the number of characters still to scan, which
  bounds it; a match of a pattern with a non-empty opening literal always consumes
  characters.
\<close>

fun findall_from :: "nat \<Rightarrow> bool \<Rightarrow> string \<Rightarrow> string \<Rightarrow> string \<Rightarrow> string list" where
  "findall_from 0 dotall opening closing s = []"
| "findall_from (Suc n) dotall opening closing [] = []"
| "findall_from (Suc n) dotall opening closing (c # cs) =
     (case match_here dotall opening closing (c # cs) of
        Some (g, rest) \<Rightarrow> g # findall_from n dotall opening closing rest
      | None \<Rightarrow> findall_from n dotall opening closing cs)"

definition re_findall :: "bool \<Rightarrow> string \<Rightarrow> string \<Rightarrow> string \<Rightarrow> string list" where
  "re_findall dotall opening closing s = findall_from (length s) dotall opening closing s"

text \<open>\<open>re.search(r'FINAL\((.*?)\)', response, re.DOTALL)\<close>, group 1.\<close>

definition final_match :: "string \<Rightarrow> string option" where
  "final_match response = re_search True ''FINAL('' '')'' response"

text \<open>\<open>re.search(r'FINAL_VAR\((.*?)\)', response)\<close>, group 1.\<close>

definition final_var_match :: "string \<Rightarrow> string option" where
  "final_var_match response = re_search False ''FINAL_VAR('' '')'' response"

text \<open>\<open>re.findall(r'```python\n(.*?)\n```', response, re.DOTALL)\<close>.\<close>

definition find_code_blocks :: "string \<Rightarrow> string list" where
  "find_code_blocks response =
     re_findall True (''```python'' @ [NL]) (NL # ''```'') response"

section \<open>The world outside the program\<close>

text \<open>
  Two collaborators are not code of the repository: the Python interpreter that
  \<open>exec\<close> hands a snippet to, and the chat endpoint that \<open>requests.post\<close> reaches.
  Both are parameters of the model, so every theorem holds for every interpreter and
  every endpoint.

  A raised exception is either an instance of \<open>Exception\<close>, which
  \<open>except Exception\<close> catches, or an instance of \<open>BaseException\<close> only
  (\<open>SystemExit\<close>, \<open>KeyboardInterrupt\<close>, \<open>GeneratorExit\<close>), which it does not.
  Both carry \<open>str(e)\<close>.
\<close>

datatype raised = ExceptionInst string | BaseExceptionOnly string

text \<open>How a call ends when it does not return a value.\<close>

datatype failure = Propagates raised | NoReturn

text \<open>
  Python values are references to objects (\<open>'v\<close>); the objects live in the
  interpreter's heap (\<open>'h\<close>), which a snippet may change in place. \<open>exec(code, namespace)\<close>
  either returns, leaving the namespace it was given rebound as the snippet did,
  or raises, or never returns.
\<close>

datatype ('v, 'h) exec_outcome =
    Returns "string \<rightharpoonup> 'v" 'h
  | Raises raised 'h
  | Diverges

text \<open>
  What \<open>_call_llm\<close> gets from the endpoint: no response ever; an exception of
  \<open>requests.post\<close>, \<open>raise_for_status\<close> or \<open>response.json\<close>; a JSON body without
  \<open>choices[0].message.content\<close> (a \<open>KeyError\<close>, \<open>IndexError\<close> or \<open>TypeError\<close> with the
  given text); or the content.
\<close>

datatype http_reply = NoResponse | RequestFails string | MalformedBody string | Content string

record message =
  role :: string
  content :: string

text \<open>
  One request as \<open>_call_llm\<close> sends it, with the \<open>depth\<close> argument the call was
  given (the source prints it and sends \<open>model\<close> and \<open>messages\<close>).
\<close>

record request =
  req_model :: string
  req_messages :: "message list"
  req_depth :: int

text \<open>The dictionary \<open>result\<close> built by \<open>REPLEnvironment.execute\<close>.\<close>

record exec_result =
  success :: bool
  result_output :: "string option"
  result_error :: "string option"
  result_variables :: "string \<rightharpoonup> string"

text \<open>An entry of \<open>execution_history\<close>.\<close>

record history_entry =
  code :: string
  result :: exec_result

text \<open>
  \<open>post_chat w n r\<close> is the endpoint's reply to request \<open>r\<close> when \<open>n\<close> requests were
  sent before it, so the same transcript may be answered differently at different
  times. \<open>str_py\<close> is \<open>str\<close> of a value in a heap, \<open>builtin_py\<close> the object a
  built-in name denotes, \<open>json_dumps\<close> is \<open>json.dumps(result, indent=2)\<close>, and
  \<open>system_prompt\<close> the f-string of \<open>completion\<close>, a text computed from the context
  (its type name, the length of its \<open>str\<close>, \<open>repl.peek(200)\<close>) and \<open>max_iterations\<close>.
\<close>

record ('v, 'h) world =
  exec_py :: "string \<Rightarrow> (string \<rightharpoonup> 'v) \<Rightarrow> 'h \<Rightarrow> ('v, 'h) exec_outcome"
  str_py :: "'h \<Rightarrow> 'v \<Rightarrow> string"
  builtin_py :: "string \<Rightarrow> 'v"
  post_chat :: "nat \<Rightarrow> request \<Rightarrow> http_reply"
  json_dumps :: "exec_result \<Rightarrow> string"
  system_prompt :: "'h \<Rightarrow> 'v \<Rightarrow> int \<Rightarrow> string"

section \<open>\<open>RLMConfig\<close> and \<open>REPLEnvironment\<close>\<close>

record rlm_config =
  root_model :: string
  recursive_model :: string
  max_iterations :: int
  max_recursive_depth :: int
  api_key :: "string option"
  base_url :: string
  verbose :: bool

text \<open>
  The sandbox object. Its \<open>verbose\<close> flag only prints and is left out.
\<close>

record 'v repl_env =
  repl_context :: 'v
  variables :: "string \<rightharpoonup> 'v"
  execution_history :: "history_entry list"

definition REPLEnvironment_init :: "'v \<Rightarrow> 'v repl_env" where
  "REPLEnvironment_init c =
     \<lparr>repl_context = c, variables = [''context'' \<mapsto> c], execution_history = []\<rparr>"

text \<open>The fifteen names \<open>execute\<close> puts into every namespace.\<close>

definition builtin_names :: "string list" where
  "builtin_names =
     [''len'', ''str'', ''int'', ''float'', ''list'', ''dict'', ''range'', ''enumerate'',
      ''zip'', ''sum'', ''min'', ''max'', ''sorted'', ''re'', ''json'']"

text \<open>
  The dictionary display of \<open>execute\<close>: \<open>"context"\<close>, then \<open>**self.variables\<close>, then the
  built-in names; a later entry replaces an earlier one with the same key.
\<close>

definition namespace_of :: "('v, 'h) world \<Rightarrow> 'v repl_env \<Rightarrow> (string \<rightharpoonup> 'v)" where
  "namespace_of w env =
     ([''context'' \<mapsto> repl_context env] ++ variables env)
       ++ (\<lambda>k. if k \<in> set builtin_names then Some (builtin_py w k) else None)"

text \<open>The filter of the \<open>update\<close>: not dunder, not \<open>context\<close>, not a built-in name.\<close>

definition kept_name :: "string \<Rightarrow> bool" where
  "kept_name k = (\<not> prefix ''__'' k \<and> k \<notin> set (''context'' # builtin_names))"

text \<open>
  \<open>REPLEnvironment.execute\<close>. The result is what the call returns (or how it fails to),
  the sandbox after the call and the heap after the call. An exception that
  \<open>except Exception\<close> does not catch leaves the method before the history is
  appended to.
\<close>

definition execute ::
  "('v, 'h) world \<Rightarrow> string \<Rightarrow> 'v repl_env \<Rightarrow> 'h \<Rightarrow> (failure + exec_result) \<times> 'v repl_env \<times> 'h" where
  "execute w snippet env h =
     (let result0 = \<lparr>success = False, result_output = None, result_error = None, result_variables = Map.empty\<rparr>
      in case exec_py w snippet (namespace_of w env) h of
           Diverges \<Rightarrow> (Inl NoReturn, env, h)
         | Raises (BaseExceptionOnly m) h' \<Rightarrow> (Inl (Propagates (BaseExceptionOnly m)), env, h')
         | Raises (ExceptionInst m) h' \<Rightarrow>
             (let result1 = result0\<lparr>result_error := Some m\<rparr>
              in (Inr result1,
                  env\<lparr>execution_history :=
                        execution_history env @ [\<lparr>code = snippet, result = result1\<rparr>]\<rparr>,
                  h'))
         | Returns ns h' \<Rightarrow>
             (let vars = variables env ++ (\<lambda>k. if kept_name k then ns k else None);
                  result1 = result0
                    \<lparr>success := True,
                     result_variables := (\<lambda>k. map_option (\<lambda>v. take 200 (str_py w h' v)) (vars k)),
                     result_output := map_option (str_py w h') (vars ''result'')\<rparr>
              in (Inr result1,
                  env\<lparr>variables := vars,
                      execution_history :=
                        execution_history env @ [\<lparr>code = snippet, result = result1\<rparr>]\<rparr>,
                  h')))"

text \<open>\<open>self.variables.get(name)\<close>: \<open>None\<close> is Python's \<open>None\<close>.\<close>

definition get_variable :: "'v repl_env \<Rightarrow> string \<Rightarrow> 'v option" where
  "get_variable env name = variables env name"

text \<open>\<open>str\<close> of what \<open>get_variable\<close> returns: \<open>str(None)\<close> is the text \<open>None\<close>.\<close>

definition str_optional :: "('v, 'h) world \<Rightarrow> 'h \<Rightarrow> 'v option \<Rightarrow> string" where
  "str_optional w h x = (case x of None \<Rightarrow> ''None'' | Some v \<Rightarrow> str_py w h v)"

section \<open>\<open>RecursiveLM\<close>\<close>

text \<open>
  The instance: its configuration, the key, and \<open>call_count\<close>. \<open>total_cost\<close> is set to
  \<open>0.0\<close> by the constructor and never read or written again; it is left out.
  \<open>requests\<close> is the log of what the instance has sent so far: it is not a field
  of the source, it records the effect of \<open>requests.post\<close>.
\<close>

record rlm =
  config :: rlm_config
  bearer :: string
  call_count :: int
  requests :: "request list"


text \<open>
  \<open>_call_llm\<close>: the request is sent; an exception of the transport leaves the
  counter as it was; otherwise the counter is incremented, and only then is the
  content read from the body.
\<close>

definition call_llm ::
  "('v, 'h) world \<Rightarrow> message list \<Rightarrow> string \<Rightarrow> int \<Rightarrow> rlm \<Rightarrow> (failure + string) \<times> rlm" where
  "call_llm w msgs model depth self =
     (let req = \<lparr>req_model = model, req_messages = msgs, req_depth = depth\<rparr>;
          sent = self\<lparr>requests := requests self @ [req]\<rparr>
      in case post_chat w (length (requests self)) req of
           NoResponse \<Rightarrow> (Inl NoReturn, sent)
         | RequestFails m \<Rightarrow> (Inl (Propagates (ExceptionInst m)), sent)
         | MalformedBody m \<Rightarrow>
             (Inl (Propagates (ExceptionInst m)), sent\<lparr>call_count := call_count sent + 1\<rparr>)
         | Content c \<Rightarrow> (Inr c, sent\<lparr>call_count := call_count sent + 1\<rparr>))"

text \<open>
  The closure \<open>recursive_lm\<close> that \<open>_create_recursive_lm_function(repl, depth)\<close>
  returns, with the variables it captures (\<open>self\<close>, \<open>repl\<close>, \<open>depth\<close>) as arguments.
  \<open>context_subset or repl.context\<close> falls back to the root context for \<open>None\<close> and for
  the empty string.
\<close>

definition recursive_lm ::
  "('v, 'h) world \<Rightarrow> 'v repl_env \<Rightarrow> int \<Rightarrow> 'h \<Rightarrow> string \<Rightarrow> string option \<Rightarrow> rlm
     \<Rightarrow> (failure + string) \<times> rlm" where
  "recursive_lm w env depth h query context_subset self =
     (if depth \<ge> max_recursive_depth (config self)
      then (Inr ''Max recursion depth reached'', self)
      else
        (let shown = (case context_subset of
                        None \<Rightarrow> str_py w h (repl_context env)
                      | Some c \<Rightarrow> if c = [] then str_py w h (repl_context env) else c);
             msgs =
               [\<lparr>role = ''system'',
                 content = ''You are a helpful assistant. Answer the query based on the provided context.''\<rparr>,
                \<lparr>role = ''user'',
                 content = ''Query: '' @ query @ [NL, NL] @ ''Context: '' @ shown\<rparr>]
         in call_llm w msgs (recursive_model (config self)) (depth + 1) self))"

definition create_recursive_lm_function ::
  "('v, 'h) world \<Rightarrow> 'v repl_env \<Rightarrow> int \<Rightarrow> 'h \<Rightarrow> string \<Rightarrow> string option \<Rightarrow> rlm
     \<Rightarrow> (failure + string) \<times> rlm" where
  "create_recursive_lm_function w env depth = recursive_lm w env depth"

section \<open>\<open>RecursiveLM.completion\<close>\<close>

text \<open>
  The local variables of \<open>completion\<close> that the loop reads and writes, with \<open>self\<close>
  and the interpreter's heap.
\<close>

record ('v, 'h) run_state =
  self :: rlm
  repl :: "'v repl_env"
  heap :: 'h
  messages :: "message list"
  iterations :: int
  final_answer :: "string option"

text \<open>
  How one pass through the loop body ends: at its last statement, at a \<open>break\<close>, or
  by an exception (or a call that never returns) that leaves \<open>completion\<close>.
\<close>

datatype flow = Next | Break | Abort failure

text \<open>
  The \<open>for code in code_blocks\<close> loop. Both branches of the test on
  \<open>"recursive_lm" in code\<close> are the same call \<open>repl.execute(code)\<close>. The two appends
  stand inside the loop: each snippet adds the assistant message and its own
  execution result.
\<close>

fun run_code_blocks ::
  "('v, 'h) world \<Rightarrow> string \<Rightarrow> string list \<Rightarrow> ('v, 'h) run_state \<Rightarrow> flow \<times> ('v, 'h) run_state" where
  "run_code_blocks w response [] s = (Next, s)"
| "run_code_blocks w response (snippet # rest) s =
     (case (if contains ''recursive_lm'' snippet
            then execute w snippet (repl s) (heap s)
            else execute w snippet (repl s) (heap s)) of
        (Inl f, env, h) \<Rightarrow> (Abort f, s\<lparr>repl := env, heap := h\<rparr>)
      | (Inr exec_result, env, h) \<Rightarrow>
          run_code_blocks w response rest
            (s\<lparr>repl := env, heap := h,
               messages := messages s @
                 [\<lparr>role = ''assistant'', content = response\<rparr>,
                  \<lparr>role = ''user'',
                   content = ''Execution result: '' @ json_dumps w exec_result\<rparr>]\<rparr>))"

text \<open>The body of the \<open>while\<close> loop.\<close>

definition loop_body :: "('v, 'h) world \<Rightarrow> ('v, 'h) run_state \<Rightarrow> flow \<times> ('v, 'h) run_state" where
  "loop_body w s0 =
     (let s1 = s0\<lparr>iterations := iterations s0 + 1\<rparr>
      in case call_llm w (messages s1) (root_model (config (self s1))) 0 (self s1) of
           (Inl f, self') \<Rightarrow> (Abort f, s1\<lparr>self := self'\<rparr>)
         | (Inr response, self') \<Rightarrow>
             (let s2 = s1\<lparr>self := self'\<rparr>
              in case final_match response of
                   Some g \<Rightarrow> (Break, s2\<lparr>final_answer := Some (strip g)\<rparr>)
                 | None \<Rightarrow>
                     (case final_var_match response of
                        Some g \<Rightarrow>
                          (Break,
                           s2\<lparr>final_answer :=
                                Some (str_optional w (heap s2) (get_variable (repl s2) (strip g)))\<rparr>)
                      | None \<Rightarrow>
                          (let code_blocks = find_code_blocks response
                           in if code_blocks \<noteq> []
                              then run_code_blocks w response code_blocks s2
                              else (Next,
                                    s2\<lparr>messages := messages s2 @
                                         [\<lparr>role = ''assistant'', content = response\<rparr>,
                                          \<lparr>role = ''user'',
                                           content =
                                             ''Continue with your analysis or provide FINAL(answer).''\<rparr>]\<rparr>)))))"

text \<open>
  \<open>while iterations < self.config.max_iterations and final_answer is None\<close>. The
  first component of the result is the failure that left \<open>completion\<close>, if any.
\<close>

function while_loop ::
  "('v, 'h) world \<Rightarrow> ('v, 'h) run_state \<Rightarrow> failure option \<times> ('v, 'h) run_state" where
  "while_loop w s =
     (if iterations s < max_iterations (config (self s)) \<and> final_answer s = None
      then (case loop_body w s of
              (Abort f, s') \<Rightarrow> (Some f, s')
            | (Break, s') \<Rightarrow> (None, s')
            | (Next, s') \<Rightarrow> while_loop w s')
      else (None, s))"
  by pat_completeness auto

text \<open>The dictionary \<open>completion\<close> returns; \<open>result_iterations\<close> and \<open>result_messages\<close> are
  its keys \<open>iterations\<close> and \<open>messages\<close>.\<close>

record completion_result =
  answer :: string
  result_iterations :: int
  repl_history :: "history_entry list"
  total_calls :: int
  result_messages :: "message list"

definition no_answer :: string where
  "no_answer = ''No final answer provided within iteration limit''"

text \<open>The state at the \<open>while\<close>: a fresh sandbox, the two opening messages.\<close>

definition initial_state ::
  "('v, 'h) world \<Rightarrow> string \<Rightarrow> 'v \<Rightarrow> rlm \<Rightarrow> 'h \<Rightarrow> ('v, 'h) run_state" where
  "initial_state w query c slf h =
     \<lparr>self = slf,
      repl = REPLEnvironment_init c,
      heap = h,
      messages =
        [\<lparr>role = ''system'', content = system_prompt w h c (max_iterations (config slf))\<rparr>,
         \<lparr>role = ''user'', content = ''Query: '' @ query\<rparr>],
      iterations = 0,
      final_answer = None\<rparr>"

text \<open>
  The \<open>return\<close> statement. \<open>final_answer or "No final answer ..."\<close> takes the
  second operand for \<open>None\<close> and for the empty string.
\<close>

definition result_of :: "('v, 'h) run_state \<Rightarrow> completion_result" where
  "result_of s =
     \<lparr>answer = (case final_answer s of
                  None \<Rightarrow> no_answer
                | Some a \<Rightarrow> if a = [] then no_answer else a),
      result_iterations = iterations s,
      repl_history = execution_history (repl s),
      total_calls = call_count (self s),
      result_messages = messages s\<rparr>"

text \<open>
  \<open>completion(query, context)\<close> on the instance \<open>slf\<close>, in heap \<open>h\<close>: what the call
  returns or how it fails, the instance after the call and the heap after the call.
\<close>

definition completion ::
  "('v, 'h) world \<Rightarrow> string \<Rightarrow> 'v \<Rightarrow> rlm \<Rightarrow> 'h \<Rightarrow> (failure + completion_result) \<times> rlm \<times> 'h" where
  "completion w query c slf h =
     (case while_loop w (initial_state w query c slf h) of
        (Some f, s) \<Rightarrow> (Inl f, self s, heap s)
      | (None, s) \<Rightarrow> (Inr (result_of s), self s, heap s))"

section \<open>Notions the statements use\<close>

text \<open>The request of one pass: the transcript so far, to the root model, at depth 0.\<close>

definition primary_request :: "('v, 'h) run_state \<Rightarrow> request" where
  "primary_request s =
     \<lparr>req_model = root_model (config (self s)), req_messages = messages s, req_depth = 0\<rparr>"

text \<open>
  The state after the root model has answered: one more iteration, one more request,
  one more counted call.
\<close>

definition answered :: "('v, 'h) run_state \<Rightarrow> ('v, 'h) run_state" where
  "answered s =
     s\<lparr>iterations := iterations s + 1,
       self := (self s)\<lparr>requests := requests (self s) @ [primary_request s],
                         call_count := call_count (self s) + 1\<rparr>\<rparr>"

text \<open>
  The spec calls the parsed intent of a response its directive. The source has no
  parser function: the loop body branches on the response itself.
\<close>

datatype directive = FinalAnswer string | FinalVarRef string | CodeBlocks "string list" | Continue

text \<open>
  The tests of the loop body on the response, in the order the loop body makes them:
  the \<open>FINAL\<close> pattern, else the \<open>FINAL_VAR\<close> pattern, else the code fences, else
  nothing.
\<close>

definition parse_directive :: "string \<Rightarrow> directive" where
  "parse_directive response =
     (case final_match response of
        Some g \<Rightarrow> FinalAnswer (strip g)
      | None \<Rightarrow>
          (case final_var_match response of
             Some g \<Rightarrow> FinalVarRef (strip g)
           | None \<Rightarrow>
               (if find_code_blocks response \<noteq> [] then CodeBlocks (find_code_blocks response)
                else Continue)))"

text \<open>What the loop body does for each directive.\<close>

definition act_on :: "('v, 'h) world \<Rightarrow> string \<Rightarrow> directive \<Rightarrow> ('v, 'h) run_state \<Rightarrow> flow \<times> ('v, 'h) run_state" where
  "act_on w response d s =
     (case d of
        FinalAnswer a \<Rightarrow> (Break, s\<lparr>final_answer := Some a\<rparr>)
      | FinalVarRef n \<Rightarrow>
          (Break, s\<lparr>final_answer := Some (str_optional w (heap s) (get_variable (repl s) n))\<rparr>)
      | CodeBlocks bs \<Rightarrow> run_code_blocks w response bs s
      | Continue \<Rightarrow>
          (Next, s\<lparr>messages := messages s @
                   [\<lparr>role = ''assistant'', content = response\<rparr>,
                    \<lparr>role = ''user'',
                     content = ''Continue with your analysis or provide FINAL(answer).''\<rparr>]\<rparr>))"

text \<open>The two messages the \<open>for\<close> loop appends for one snippet.\<close>

definition exchange :: "('v, 'h) world \<Rightarrow> string \<Rightarrow> exec_result \<Rightarrow> message list" where
  "exchange w response r =
     [\<lparr>role = ''assistant'', content = response\<rparr>,
      \<lparr>role = ''user'', content = ''Execution result: '' @ json_dumps w r\<rparr>]"




text \<open>The text after the first occurrence of a pattern.\<close>

fun after_first :: "string \<Rightarrow> string \<Rightarrow> string option" where
  "after_first pat [] = (if pat = [] then Some [] else None)"
| "after_first pat (c # cs) =
     (if prefix pat (c # cs) then Some (drop (length pat) (c # cs)) else after_first pat cs)"

text \<open>
  The contents of the marker as the spec words them: they run to the close
  parenthesis that matches the one of \<open>FINAL(\<close>, so parentheses inside the answer
  are kept. \<open>n\<close> counts the parentheses opened inside and not yet closed. This is
  not the source's pattern; it is what the source is compared with.
\<close>

fun up_to_matching_close :: "nat \<Rightarrow> string \<Rightarrow> string option" where
  "up_to_matching_close n [] = None"
| "up_to_matching_close n (c # cs) =
     (if c = CHR '')''
      then (case n of 0 \<Rightarrow> Some [] | Suc m \<Rightarrow> map_option ((#) c) (up_to_matching_close m cs))
      else if c = CHR ''(''
      then map_option ((#) c) (up_to_matching_close (Suc n) cs)
      else map_option ((#) c) (up_to_matching_close n cs))"

definition claimed_final_answer :: "string \<Rightarrow> string option" where
  "claimed_final_answer response =
     (case after_first ''FINAL('' response of
        None \<Rightarrow> None
      | Some rest \<Rightarrow> map_option strip (up_to_matching_close 0 rest))"

text \<open>
  A chain of nested dispatches: \<open>n\<close> attempts, the first at depth \<open>depth\<close>, each next one
  at the depth the call before it was given, \<open>depth + 1\<close>. A dispatch that fails ends
  the chain. (In the source the model called by \<open>recursive_lm\<close> gets no sandbox, so no
  dispatch is ever nested in another; the chain is what the depth argument provides
  for.)
\<close>

fun dispatch_chain ::
  "('v, 'h) world \<Rightarrow> 'v repl_env \<Rightarrow> 'h \<Rightarrow> string \<Rightarrow> string option \<Rightarrow> nat \<Rightarrow> int \<Rightarrow> rlm \<Rightarrow> rlm" where
  "dispatch_chain w env h query context_subset 0 depth slf = slf"
| "dispatch_chain w env h query context_subset (Suc n) depth slf =
     (case recursive_lm w env depth h query context_subset slf of
        (Inl f, slf') \<Rightarrow> slf'
      | (Inr text, slf') \<Rightarrow> dispatch_chain w env h query context_subset n (depth + 1) slf')"

section \<open>A scripted world\<close>

text \<open>
  The closed instances below run the program against an interpreter that knows a
  handful of snippets and an endpoint that answers from a script. On the snippets it
  knows the interpreter does what Python does: an assignment binds the name, a
  division by zero raises \<open>ZeroDivisionError\<close>, \<open>raise SystemExit\<close> raises an exception
  that is no \<open>Exception\<close>, a call of a name the namespace does not bind raises
  \<open>NameError\<close>. A value is written as its \<open>str\<close>; the heap is trivial.
\<close>

definition demo_exec :: "string \<Rightarrow> (string \<rightharpoonup> string) \<Rightarrow> unit \<Rightarrow> (string, unit) exec_outcome" where
  "demo_exec snippet ns h =
     (if snippet = ''x = 1'' then Returns (ns(''x'' \<mapsto> ''1'')) ()
      else if snippet = ''y = 2'' then Returns (ns(''y'' \<mapsto> ''2'')) ()
      else if snippet = ''result = 42'' then Returns (ns(''result'' \<mapsto> ''42'')) ()
      else if snippet = ''x = 1 / 0'' then Raises (ExceptionInst ''division by zero'') ()
      else if snippet = ''raise SystemExit'' then Raises (BaseExceptionOnly []) ()
      else if snippet = ''while True: pass'' then Diverges
      else if snippet = ''result = recursive_lm(context)''
        then (if ns ''recursive_lm'' = None
              then Raises (ExceptionInst ''name 'recursive_lm' is not defined'') ()
              else Returns (ns(''result'' \<mapsto> ''sub-answer'')) ())
      else Raises (ExceptionInst ''invalid syntax (<string>, line 1)'') ())"

definition scripted :: "http_reply list \<Rightarrow> nat \<Rightarrow> request \<Rightarrow> http_reply" where
  "scripted replies n r =
     (if n < length replies then replies ! n else RequestFails ''connection refused'')"

definition demo_world :: "http_reply list \<Rightarrow> (string, unit) world" where
  "demo_world replies =
     \<lparr>exec_py = demo_exec,
      str_py = (\<lambda>h v. v),
      builtin_py = (\<lambda>k. ''<built-in '' @ k @ ''>''),
      post_chat = scripted replies,
      json_dumps = (\<lambda>r. if success r then ''{success: true}'' else ''{success: false}''),
      system_prompt = (\<lambda>h c n. ''You are a Recursive Language Model (RLM)'')\<rparr>"

definition demo_config :: rlm_config where
  "demo_config =
     \<lparr>root_model = ''openai/gpt-4o'', recursive_model = ''openai/gpt-4o-mini'',
      max_iterations = 10, max_recursive_depth = 1, api_key = Some ''sk-test'',
      base_url = ''https://openrouter.ai/api/v1'', verbose = False\<rparr>"

definition demo_rlm :: rlm where
  "demo_rlm = \<lparr>config = demo_config, bearer = ''sk-test'', call_count = 0, requests = []\<rparr>"

section \<open>Termination of the loop\<close>

lemma call_llm_config: "call_llm w msgs model depth slf = (r, slf') \<Longrightarrow> config slf' = config slf"
  by (auto simp: call_llm_def Let_def split: http_reply.splits)

lemma run_code_blocks_frame:
  "run_code_blocks w response blocks s = (fl, s') \<Longrightarrow>
     self s' = self s \<and> iterations s' = iterations s \<and> final_answer s' = final_answer s"
proof (induction blocks arbitrary: s)
  case Nil
  then show ?case by simp
next
  case (Cons b bs)
  show ?case
  proof (cases "execute w b (repl s) (heap s)")
    case (fields r env h)
    show ?thesis
    proof (cases r)
      case (Inl f)
      with fields Cons.prems show ?thesis by auto
    next
      case (Inr er)
      with fields Cons.prems Cons.IH show ?thesis by fastforce
    qed
  qed
qed

lemma loop_body_counts:
  assumes "loop_body w s = (fl, s')"
  shows "iterations s' = iterations s + 1 \<and> config (self s') = config (self s)"
proof (cases "call_llm w (messages s) (root_model (config (self s))) 0 (self s)")
  case (Pair r slf)
  note cfg = call_llm_config [OF Pair]
  show ?thesis
  proof (cases r)
    case (Inl f)
    with Pair assms cfg show ?thesis
      by (auto simp: loop_body_def Let_def)
  next
    case (Inr response)
    let ?s2 = "s\<lparr>iterations := iterations s + 1, self := slf\<rparr>"
    show ?thesis
    proof (cases "final_match response = None \<and> final_var_match response = None
                    \<and> find_code_blocks response \<noteq> []")
      case True
      with Pair Inr assms
      have "run_code_blocks w response (find_code_blocks response) ?s2 = (fl, s')"
        by (simp add: loop_body_def Let_def)
      from run_code_blocks_frame [OF this] cfg show ?thesis by simp
    next
      case False
      with Pair Inr assms cfg show ?thesis
        by (auto simp: loop_body_def Let_def split: option.splits if_splits)
    qed
  qed
qed

text \<open>Every pass increments \<open>iterations\<close>, and nothing changes the configuration.\<close>

termination while_loop
proof (relation "measure (\<lambda>(w, s). nat (max_iterations (config (self s)) - iterations s))")
  show "wf (measure (\<lambda>(w, s). nat (max_iterations (config (self s)) - iterations s)))"
    by simp
next
  fix w :: "('a, 'b) world" and s s' :: "('a, 'b) run_state" and x1a :: flow
  assume "iterations s < max_iterations (config (self s)) \<and> final_answer s = None"
    and "(x1a, s') = loop_body w s" 
  then show "((w, s'), (w, s)) \<in> measure (\<lambda>(w, s). nat (max_iterations (config (self s)) - iterations s))"
    using loop_body_counts[of w s x1a s'] by simp
qed

declare while_loop.simps [simp del]

section \<open>The regular expressions\<close>

text \<open>
  The count that \<open>findall_from\<close> carries never cuts the scan short: any count that
  is at least the length of the text gives the same list.
\<close>

lemma lazy_group_rest:
  "lazy_group dotall closing s = Some (g, rest) \<Longrightarrow> length rest \<le> length s"
proof (induction s arbitrary: g rest)
  case Nil
  then show ?case by (simp split: if_splits)
next
  case (Cons c cs)
  show ?case
  proof (cases "prefix closing (c # cs)")
    case True
    with Cons.prems show ?thesis by auto
  next
    case False
    with Cons.prems obtain g' where "lazy_group dotall closing cs = Some (g', rest)"
      by (auto split: if_splits option.splits)
    from Cons.IH [OF this] show ?thesis by simp
  qed
qed

lemma match_here_rest:
  assumes "opening \<noteq> []" and "match_here dotall opening closing (c # cs) = Some (g, rest)"
  shows "length rest \<le> length cs"
proof -
  from assms(2) have p: "prefix opening (c # cs)"
    and l: "lazy_group dotall closing (drop (length opening) (c # cs)) = Some (g, rest)"
    by (auto simp: match_here_def split: if_splits)
  from lazy_group_rest [OF l] have "length rest \<le> length (c # cs) - length opening" by simp
  with assms(1) show ?thesis by (cases "opening") auto
qed

lemma findall_from_enough:
  assumes "opening \<noteq> []"
  shows "length s \<le> n \<Longrightarrow> length s \<le> m \<Longrightarrow>
           findall_from n dotall opening closing s = findall_from m dotall opening closing s"
proof (induction n arbitrary: m s)
  case 0
  then show ?case by (cases m) simp_all
next
  case (Suc n)
  show ?case
  proof (cases s)
    case Nil
    then show ?thesis by (cases m) simp_all
  next
    case (Cons c cs)
    with Suc.prems obtain m' where m: "m = Suc m'" and m': "length cs \<le> m'"
      by (cases m) auto
    from Cons Suc.prems have n: "length cs \<le> n" by simp
    show ?thesis
    proof (cases "match_here dotall opening closing (c # cs)")
      case None
      with Cons m Suc.IH [OF n m'] show ?thesis by simp
    next
      case (Some a)
      obtain g rest where a: "a = (g, rest)" by (cases a)
      from match_here_rest [OF assms Some [unfolded a]] n m'
      have "length rest \<le> n" "length rest \<le> m'" by simp_all
      from Suc.IH [OF this] Cons m Some a show ?thesis by simp
    qed
  qed
qed

lemma find_code_blocks_enough:
  "length response \<le> n \<Longrightarrow>
     findall_from n True (''```python'' @ [NL]) (NL # ''```'') response = find_code_blocks response"
  unfolding find_code_blocks_def re_findall_def
  by (rule findall_from_enough) simp_all

text \<open>
  What the lazy group does before a close parenthesis: it stops at the first one.
\<close>

lemma lazy_group_close:
  "lazy_group True '')'' s =
     (if CHR '')'' \<in> set s
      then Some (takeWhile (\<lambda>c. c \<noteq> CHR '')'') s, tl (dropWhile (\<lambda>c. c \<noteq> CHR '')'') s))
      else None)"
  by (induction s) auto

lemma re_search_no_close:
  "CHR '')'' \<notin> set s \<Longrightarrow> re_search True opening '')'' s = None"
proof (induction s)
  case Nil
  then show ?case by (simp add: match_here_def)
next
  case (Cons c cs)
  have "CHR '')'' \<notin> set (drop (length opening) (c # cs))"
    using Cons.prems by (meson in_set_dropD)
  then have "match_here True opening '')'' (c # cs) = None"
    by (simp add: match_here_def lazy_group_close)
  with Cons show ?case by simp
qed

text \<open>
  So the search finds the first occurrence of the opening literal and cuts at the
  first close parenthesis after it; if there is none there, there is none after any
  later occurrence either.
\<close>

lemma re_search_first_close:
  assumes "CHR '')'' \<notin> set opening"
  shows "re_search True opening '')'' s =
     (case after_first opening s of
        None \<Rightarrow> None
      | Some rest \<Rightarrow>
          if CHR '')'' \<in> set rest then Some (takeWhile (\<lambda>c. c \<noteq> CHR '')'') rest) else None)"
proof (induction s)
  case Nil
  then show ?case by (simp add: match_here_def)
next
  case (Cons c cs)
  show ?case
  proof (cases "prefix opening (c # cs)")
    case False
    then have "match_here True opening '')'' (c # cs) = None"
      by (simp only: match_here_def if_False)
    moreover from False have "after_first opening (c # cs) = after_first opening cs"
      by (simp only: after_first.simps if_False)
    ultimately show ?thesis using Cons.IH by (simp only: re_search.simps option.case)
  next
    case True
    then obtain zs where zs: "c # cs = opening @ zs" by (auto elim: prefixE)
    then have rest: "drop (length opening) (c # cs) = zs" by simp
    from True rest have af: "after_first opening (c # cs) = Some zs"
      by (simp only: after_first.simps if_True)
    from True rest have mh: "match_here True opening '')'' (c # cs) = lazy_group True '')'' zs"
      by (simp only: match_here_def if_True)
    show ?thesis
    proof (cases "CHR '')'' \<in> set zs")
      case close: True
      with mh af show ?thesis
        by (simp only: re_search.simps lazy_group_close if_True option.case prod.case)
    next
      case noclose: False
      have "set cs \<subseteq> set (c # cs)" by auto
      with zs assms noclose have "CHR '')'' \<notin> set cs" by auto
      from re_search_no_close [OF this]
      have "re_search True opening '')'' cs = None" .
      with mh af noclose show ?thesis
        by (simp only: re_search.simps lazy_group_close if_False option.case)
    qed
  qed
qed

lemma final_match_first_close:
  "final_match response =
     (case after_first ''FINAL('' response of
        None \<Rightarrow> None
      | Some rest \<Rightarrow>
          if CHR '')'' \<in> set rest then Some (takeWhile (\<lambda>c. c \<noteq> CHR '')'') rest) else None)"
  unfolding final_match_def by (rule re_search_first_close) simp

section \<open>The loop: what it sends and what it counts\<close>

lemma call_llm_sent:
  "call_llm w msgs model depth slf = (r, slf') \<Longrightarrow>
     requests slf' = requests slf @ [\<lparr>req_model = model, req_messages = msgs, req_depth = depth\<rparr>]"
  by (auto simp: call_llm_def Let_def split: http_reply.splits)

lemma call_llm_counted:
  "call_llm w msgs model depth slf = (Inr c, slf') \<Longrightarrow> call_count slf' = call_count slf + 1"
  by (auto simp: call_llm_def Let_def split: http_reply.splits)

lemma loop_body_self:
  assumes "loop_body w s = (fl, s')"
  shows "\<exists>r. call_llm w (messages s) (root_model (config (self s))) 0 (self s) = (r, self s')"
proof (cases "call_llm w (messages s) (root_model (config (self s))) 0 (self s)")
  case (Pair r slf)
  show ?thesis
  proof (cases r)
    case (Inl f)
    with Pair assms show ?thesis by (auto simp: loop_body_def Let_def)
  next
    case (Inr response)
    let ?s2 = "s\<lparr>iterations := iterations s + 1, self := slf\<rparr>"
    show ?thesis
    proof (cases "final_match response = None \<and> final_var_match response = None
                    \<and> find_code_blocks response \<noteq> []")
      case True
      with Pair Inr assms
      have "run_code_blocks w response (find_code_blocks response) ?s2 = (fl, s')"
        by (simp add: loop_body_def Let_def)
      from run_code_blocks_frame [OF this] Pair show ?thesis by simp
    next
      case False
      with Pair Inr assms show ?thesis
        by (auto simp: loop_body_def Let_def split: option.splits if_splits)
    qed
  qed
qed

lemma loop_body_sent:
  assumes "loop_body w s = (fl, s')"
  shows "requests (self s') = requests (self s) @ [primary_request s]"
proof -
  from loop_body_self [OF assms] obtain r where
    "call_llm w (messages s) (root_model (config (self s))) 0 (self s) = (r, self s')" ..
  from call_llm_sent [OF this] show ?thesis by (simp add: primary_request_def)
qed

lemma loop_body_answered:
  assumes "loop_body w s = (fl, s')" and "fl = Next \<or> fl = Break"
  shows "\<exists>c. call_llm w (messages s) (root_model (config (self s))) 0 (self s) = (Inr c, self s')"
proof -
  from loop_body_self [OF assms(1)] obtain r where
    r: "call_llm w (messages s) (root_model (config (self s))) 0 (self s) = (r, self s')" ..
  show ?thesis
  proof (cases r)
    case (Inl f)
    with r assms show ?thesis by (auto simp: loop_body_def Let_def)
  next
    case (Inr c)
    with r show ?thesis by auto
  qed
qed

lemma loop_body_counted:
  assumes "loop_body w s = (fl, s')" and "fl = Next \<or> fl = Break"
  shows "call_count (self s') = call_count (self s) + 1"
proof -
  from loop_body_answered [OF assms] obtain c where
    "call_llm w (messages s) (root_model (config (self s))) 0 (self s) = (Inr c, self s')" ..
  from call_llm_counted [OF this] show ?thesis .
qed

lemma while_loop_trace:
  "while_loop w s = (err, s') \<Longrightarrow>
     config (self s') = config (self s) \<and>
     iterations s \<le> iterations s' \<and>
     iterations s' \<le> max (iterations s) (max_iterations (config (self s))) \<and>
     (\<exists>new. requests (self s') = requests (self s) @ new
         \<and> int (length new) = iterations s' - iterations s
         \<and> list_all (\<lambda>r. req_model r = root_model (config (self s)) \<and> req_depth r = 0) new) \<and>
     (err = None \<longrightarrow> call_count (self s') = call_count (self s) + (iterations s' - iterations s))"
proof (induction w s arbitrary: err s' rule: while_loop.induct)
  case (1 w s)
  show ?case
  proof (cases "iterations s < max_iterations (config (self s)) \<and> final_answer s = None")
    case False
    with "1.prems" have "err = None" and "s' = s"
      by (auto simp: while_loop.simps [of w s])
    then show ?thesis by simp
  next
    case True
    obtain fl s1 where body: "loop_body w s = (fl, s1)" by (cases "loop_body w s")
    from loop_body_counts [OF body]
    have it: "iterations s1 = iterations s + 1" and cfg: "config (self s1) = config (self s)"
      by simp_all
    from loop_body_sent [OF body]
    have sent: "requests (self s1) = requests (self s) @ [primary_request s]" .
    have pr: "req_model (primary_request s) = root_model (config (self s))
                \<and> req_depth (primary_request s) = 0"
      by (simp add: primary_request_def)
    show ?thesis
    proof (cases fl)
      case Next
      with True body "1.prems" have rec: "while_loop w s1 = (err, s')"
        by (simp add: while_loop.simps [of w s])
      from "1.IH" [OF True body [symmetric] Next rec]
      have ih: "config (self s') = config (self s1)"
        "iterations s1 \<le> iterations s'"
        "iterations s' \<le> max (iterations s1) (max_iterations (config (self s1)))"
        "\<exists>new. requests (self s') = requests (self s1) @ new
           \<and> int (length new) = iterations s' - iterations s1
           \<and> list_all (\<lambda>r. req_model r = root_model (config (self s1)) \<and> req_depth r = 0) new"
        "err = None \<longrightarrow> call_count (self s') = call_count (self s1) + (iterations s' - iterations s1)"
        by simp_all
      from ih(4) obtain new where new:
        "requests (self s') = requests (self s1) @ new"
        "int (length new) = iterations s' - iterations s1"
        "list_all (\<lambda>r. req_model r = root_model (config (self s1)) \<and> req_depth r = 0) new"
        by blast
      from new sent it cfg pr
      have "requests (self s') = requests (self s) @ (primary_request s # new)
         \<and> int (length (primary_request s # new)) = iterations s' - iterations s
         \<and> list_all (\<lambda>r. req_model r = root_model (config (self s)) \<and> req_depth r = 0)
              (primary_request s # new)"
        by simp
      then have ex: "\<exists>new. requests (self s') = requests (self s) @ new
         \<and> int (length new) = iterations s' - iterations s
         \<and> list_all (\<lambda>r. req_model r = root_model (config (self s)) \<and> req_depth r = 0) new"
        by blast
      from loop_body_counted [OF body] Next
      have "call_count (self s1) = call_count (self s) + 1" by simp
      with ih(5) it
      have cnt: "err = None \<longrightarrow> call_count (self s') = call_count (self s) + (iterations s' - iterations s)"
        by simp
      from ih(1,2,3) it cfg True ex cnt show ?thesis by simp
    next
      case Break
      with True body "1.prems" have "err = None" and "s' = s1"
        by (simp_all add: while_loop.simps [of w s])
      moreover from loop_body_counted [OF body] Break
      have "call_count (self s1) = call_count (self s) + 1" by simp
      moreover have "\<exists>new. requests (self s1) = requests (self s) @ new
         \<and> int (length new) = iterations s1 - iterations s
         \<and> list_all (\<lambda>r. req_model r = root_model (config (self s)) \<and> req_depth r = 0) new"
        using sent it pr by (intro exI [of _ "[primary_request s]"]) simp
      ultimately show ?thesis using it cfg True by simp
    next
      case (Abort f)
      with True body "1.prems" have "err = Some f" and "s' = s1"
        by (simp_all add: while_loop.simps [of w s])
      moreover have "\<exists>new. requests (self s1) = requests (self s) @ new
         \<and> int (length new) = iterations s1 - iterations s
         \<and> list_all (\<lambda>r. req_model r = root_model (config (self s)) \<and> req_depth r = 0) new"
        using sent it pr by (intro exI [of _ "[primary_request s]"]) simp
      ultimately show ?thesis using it cfg True by simp
    qed
  qed
qed

lemma no_answer_not_empty: "no_answer \<noteq> []"
  by (simp add: no_answer_def)

lemma answer_not_empty: "answer (result_of s) \<noteq> []"
  by (simp add: result_of_def no_answer_not_empty split: option.splits)

text \<open>When the root model answers with a text, the pass does what the directive says.\<close>

lemma loop_body_content:
  assumes "post_chat w (length (requests (self s))) (primary_request s) = Content response"
  shows "loop_body w s = act_on w response (parse_directive response) (answered s)"
  using assms
  by (simp add: loop_body_def call_llm_def Let_def primary_request_def answered_def act_on_def
        parse_directive_def split: option.splits)

lemma while_loop_break:
  assumes "iterations s < max_iterations (config (self s))" and "final_answer s = None"
    and "loop_body w s = (Break, s')"
  shows "while_loop w s = (None, s')"
  using assms by (simp add: while_loop.simps [of w s])

section \<open>Code fences and the transcript\<close>

lemma execute_history:
  "execute w snippet env h = (Inr r, env', h') \<Longrightarrow>
     execution_history env' = execution_history env @ [\<lparr>code = snippet, result = r\<rparr>]"
  by (auto simp: execute_def Let_def split: exec_outcome.splits raised.splits)

lemma run_code_blocks_transcript:
  "run_code_blocks w response blocks s = (Next, s') \<Longrightarrow>
     \<exists>results. length results = length blocks
       \<and> messages s' = messages s @ concat (map (exchange w response) results)
       \<and> execution_history (repl s')
            = execution_history (repl s) @ map (\<lambda>(b, r). \<lparr>code = b, result = r\<rparr>) (zip blocks results)"
proof (induction blocks arbitrary: s)
  case Nil
  then show ?case by simp
next
  case (Cons b bs)
  obtain out env h where ex: "execute w b (repl s) (heap s) = (out, env, h)"
    by (cases "execute w b (repl s) (heap s)")
  show ?case
  proof (cases out)
    case (Inl f)
    with ex Cons.prems show ?thesis by simp
  next
    case (Inr r)
    let ?s1 = "s\<lparr>repl := env, heap := h, messages := messages s @ exchange w response r\<rparr>"
    from ex Inr Cons.prems have "run_code_blocks w response bs ?s1 = (Next, s')"
      by (simp add: exchange_def)
    from Cons.IH [OF this] obtain rs where rs:
      "length rs = length bs"
      "messages s' = messages ?s1 @ concat (map (exchange w response) rs)"
      "execution_history (repl s')
         = execution_history (repl ?s1) @ map (\<lambda>(b, r). \<lparr>code = b, result = r\<rparr>) (zip bs rs)"
      by blast
    from ex Inr have "execution_history env = execution_history (repl s) @ [\<lparr>code = b, result = r\<rparr>]"
      by (simp add: execute_history)
    with rs have "length (r # rs) = length (b # bs)
       \<and> messages s' = messages s @ concat (map (exchange w response) (r # rs))
       \<and> execution_history (repl s')
            = execution_history (repl s)
                @ map (\<lambda>(b, r). \<lparr>code = b, result = r\<rparr>) (zip (b # bs) (r # rs))"
      by simp
    then show ?thesis by blast
  qed
qed

lemma length_concat_exchange:
  "length (concat (map (exchange w response) results)) = 2 * length results"
  by (induction results) (simp_all add: exchange_def)

section \<open>Running the program on the scripted world\<close>

text \<open>The equations that run the program on a scripted world.\<close>

lemmas run_simps = completion_def initial_state_def result_of_def while_loop.simps loop_body_def
  call_llm_def Let_def demo_world_def scripted_def demo_rlm_def demo_config_def
  final_match_def final_var_match_def find_code_blocks_def re_findall_def match_here_def
  REPLEnvironment_init_def no_answer_def

text \<open>The equations that run \<open>execute\<close> on the scripted interpreter.\<close>

lemmas exec_simps = execute_def namespace_of_def builtin_names_def kept_name_def map_add_def
  demo_exec_def NL_def

section \<open>C1: the dispatcher and the sandbox\<close>

text \<open>
  C1 does not hold of the source: \<open>completion\<close> never calls
  \<open>_create_recursive_lm_function\<close>, and the namespace \<open>execute\<close> builds for a fresh
  sandbox has no name \<open>recursive_lm\<close>. A snippet that calls it gets a \<open>NameError\<close>,
  recorded as a failed execution; both requests of the run below go to the root
  model, none to the recursive model.
\<close>

theorem recursive_lm_not_in_namespace:
  "namespace_of w (REPLEnvironment_init c) ''recursive_lm'' = None
   \<and> completion
         (demo_world [Content ''```python\<newline>result = recursive_lm(context)\<newline>```'',
                      Content ''FINAL_VAR(result)''])
         ''q'' ''ctx'' demo_rlm ()
     = (Inr \<lparr>answer = ''None'', result_iterations = 2,
             repl_history =
               [\<lparr>code = ''result = recursive_lm(context)'',
                 result = \<lparr>success = False, result_output = None,
                           result_error = Some ''name 'recursive_lm' is not defined'',
                           result_variables = Map.empty\<rparr>\<rparr>],
             total_calls = 2,
             result_messages =
               [\<lparr>role = ''system'', content = ''You are a Recursive Language Model (RLM)''\<rparr>,
                \<lparr>role = ''user'', content = ''Query: q''\<rparr>,
                \<lparr>role = ''assistant'',
                 content = ''```python\<newline>result = recursive_lm(context)\<newline>```''\<rparr>,
                \<lparr>role = ''user'', content = ''Execution result: {success: false}''\<rparr>]\<rparr>,
        demo_rlm\<lparr>call_count := 2,
          requests :=
            [\<lparr>req_model = ''openai/gpt-4o'',
              req_messages =
                [\<lparr>role = ''system'', content = ''You are a Recursive Language Model (RLM)''\<rparr>,
                 \<lparr>role = ''user'', content = ''Query: q''\<rparr>],
              req_depth = 0\<rparr>,
             \<lparr>req_model = ''openai/gpt-4o'',
              req_messages =
                [\<lparr>role = ''system'', content = ''You are a Recursive Language Model (RLM)''\<rparr>,
                 \<lparr>role = ''user'', content = ''Query: q''\<rparr>,
                 \<lparr>role = ''assistant'',
                  content = ''```python\<newline>result = recursive_lm(context)\<newline>```''\<rparr>,
                 \<lparr>role = ''user'', content = ''Execution result: {success: false}''\<rparr>],
              req_depth = 0\<rparr>]\<rparr>,
        ())"
proof
  show "namespace_of w (REPLEnvironment_init c) ''recursive_lm'' = None"
    by (simp add: namespace_of_def REPLEnvironment_init_def builtin_names_def map_add_def)
next
  show "completion
         (demo_world [Content ''```python\<newline>result = recursive_lm(context)\<newline>```'',
                      Content ''FINAL_VAR(result)''])
         ''q'' ''ctx'' demo_rlm ()
     = (Inr \<lparr>answer = ''None'', result_iterations = 2,
             repl_history =
               [\<lparr>code = ''result = recursive_lm(context)'',
                 result = \<lparr>success = False, result_output = None,
                           result_error = Some ''name 'recursive_lm' is not defined'',
                           result_variables = Map.empty\<rparr>\<rparr>],
             total_calls = 2,
             result_messages =
               [\<lparr>role = ''system'', content = ''You are a Recursive Language Model (RLM)''\<rparr>,
                \<lparr>role = ''user'', content = ''Query: q''\<rparr>,
                \<lparr>role = ''assistant'',
                 content = ''```python\<newline>result = recursive_lm(context)\<newline>```''\<rparr>,
                \<lparr>role = ''user'', content = ''Execution result: {success: false}''\<rparr>]\<rparr>,
        demo_rlm\<lparr>call_count := 2,
          requests :=
            [\<lparr>req_model = ''openai/gpt-4o'',
              req_messages =
                [\<lparr>role = ''system'', content = ''You are a Recursive Language Model (RLM)''\<rparr>,
                 \<lparr>role = ''user'', content = ''Query: q''\<rparr>],
              req_depth = 0\<rparr>,
             \<lparr>req_model = ''openai/gpt-4o'',
              req_messages =
                [\<lparr>role = ''system'', content = ''You are a Recursive Language Model (RLM)''\<rparr>,
                 \<lparr>role = ''user'', content = ''Query: q''\<rparr>,
                 \<lparr>role = ''assistant'',
                  content = ''```python\<newline>result = recursive_lm(context)\<newline>```''\<rparr>,
                 \<lparr>role = ''user'', content = ''Execution result: {success: false}''\<rparr>],
              req_depth = 0\<rparr>]\<rparr>,
        ())"
    by (simp add: run_simps NL_def strip_def is_space_def execute_def namespace_of_def
          builtin_names_def map_add_def demo_exec_def str_optional_def get_variable_def)
qed

section \<open>C2: the depth cap of the dispatcher\<close>

lemma recursive_lm_capped:
  "max_recursive_depth (config slf) \<le> d \<Longrightarrow>
     recursive_lm w env d h query context_subset slf = (Inr ''Max recursion depth reached'', slf)"
  by (simp add: recursive_lm_def)

lemma recursive_lm_calls_once:
  assumes "d < max_recursive_depth (config slf)"
  shows "\<exists>msgs. requests (snd (recursive_lm w env d h query context_subset slf))
           = requests slf @ [\<lparr>req_model = recursive_model (config slf), req_messages = msgs,
                               req_depth = d + 1\<rparr>]"
proof -
  from assms obtain msgs where
    "recursive_lm w env d h query context_subset slf
       = call_llm w msgs (recursive_model (config slf)) (d + 1) slf"
    by (simp add: recursive_lm_def Let_def)
  moreover obtain out slf' where
    c: "call_llm w msgs (recursive_model (config slf)) (d + 1) slf = (out, slf')"
    by (cases "call_llm w msgs (recursive_model (config slf)) (d + 1) slf")
  ultimately show ?thesis using call_llm_sent [OF c] by auto
qed

lemma recursive_lm_counts_answer:
  assumes "d < max_recursive_depth (config slf)"
    and "recursive_lm w env d h query context_subset slf = (Inr text, slf')"
  shows "call_count slf' = call_count slf + 1"
proof -
  from assms obtain msgs where
    "call_llm w msgs (recursive_model (config slf)) (d + 1) slf = (Inr text, slf')"
    by (simp add: recursive_lm_def Let_def)
  from call_llm_counted [OF this] show ?thesis .
qed

lemma recursive_lm_config:
  "recursive_lm w env d h query context_subset slf = (out, slf') \<Longrightarrow> config slf' = config slf"
  by (auto simp: recursive_lm_def Let_def dest: call_llm_config split: if_splits)

lemma recursive_lm_sends_at_most_one:
  "recursive_lm w env d h query context_subset slf = (out, slf') \<Longrightarrow>
     length (requests slf') = length (requests slf)
       + (if d < max_recursive_depth (config slf) then 1 else 0)"
  by (auto simp: recursive_lm_def Let_def dest: call_llm_sent split: if_splits)

lemma dispatch_chain_bound:
  "length (requests (dispatch_chain w env h query context_subset n d slf))
     \<le> length (requests slf) + nat (max_recursive_depth (config slf) - d)"
proof (induction n arbitrary: d slf)
  case 0
  then show ?case by simp
next
  case (Suc n)
  obtain out slf' where r: "recursive_lm w env d h query context_subset slf = (out, slf')"
    by (cases "recursive_lm w env d h query context_subset slf")
  note cfg = recursive_lm_config [OF r]
  note len = recursive_lm_sends_at_most_one [OF r]
  show ?case
  proof (cases out)
    case (Inl f)
    with r len show ?thesis by (auto split: if_splits)
  next
    case (Inr reply)
    from Suc.IH [of "d + 1" slf'] cfg
    have "length (requests (dispatch_chain w env h query context_subset n (d + 1) slf'))
            \<le> length (requests slf') + nat (max_recursive_depth (config slf) - (d + 1))"
      by simp
    with r Inr len show ?thesis by (auto split: if_splits)
  qed
qed

text \<open>
  C2. At a depth that has reached \<open>max_recursive_depth\<close> the dispatch returns the
  fixed text and leaves the instance as it was: no request, no count. Below it, the
  dispatch sends exactly one request, to the recursive model, with depth \<open>d + 1\<close>,
  and counts it when it is answered. So a chain of \<open>n\<close> nested dispatches from depth 0
  sends at most \<open>max_recursive_depth\<close> requests, however long it is.
\<close>

theorem recursive_lm_depth_cap:
  "(max_recursive_depth (config slf) \<le> d \<longrightarrow>
      recursive_lm w env d h query context_subset slf = (Inr ''Max recursion depth reached'', slf))
   \<and> (d < max_recursive_depth (config slf) \<longrightarrow>
        (\<exists>msgs. requests (snd (recursive_lm w env d h query context_subset slf))
           = requests slf @ [\<lparr>req_model = recursive_model (config slf), req_messages = msgs,
                               req_depth = d + 1\<rparr>])
        \<and> (\<forall>text slf'. recursive_lm w env d h query context_subset slf = (Inr text, slf')
              \<longrightarrow> call_count slf' = call_count slf + 1))
   \<and> length (requests (dispatch_chain w env h query context_subset n 0 slf))
        \<le> length (requests slf) + nat (max_recursive_depth (config slf))"
  using recursive_lm_capped [of slf d w env h query context_subset]
    recursive_lm_calls_once [of d slf w env h query context_subset]
    recursive_lm_counts_answer [of d slf w env h query context_subset]
    dispatch_chain_bound [of w env h query context_subset n 0 slf]
  by auto

theorem recursive_lm_depth_cap_witness:
  "max_recursive_depth (config demo_rlm) \<le> 1
   \<and> recursive_lm (demo_world [Content ''five stars'']) (REPLEnvironment_init ''ctx'') 1 ()
         ''rating?'' None demo_rlm
       = (Inr ''Max recursion depth reached'', demo_rlm)
   \<and> 0 < max_recursive_depth (config demo_rlm)
   \<and> recursive_lm (demo_world [Content ''five stars'']) (REPLEnvironment_init ''ctx'') 0 ()
         ''rating?'' None demo_rlm
       = (Inr ''five stars'',
          demo_rlm\<lparr>call_count := 1,
            requests :=
              [\<lparr>req_model = ''openai/gpt-4o-mini'',
                req_messages =
                  [\<lparr>role = ''system'',
                    content = ''You are a helpful assistant. Answer the query based on the provided context.''\<rparr>,
                   \<lparr>role = ''user'',
                    content = ''Query: rating?\<newline>\<newline>Context: ctx''\<rparr>],
                req_depth = 1\<rparr>]\<rparr>)
   \<and> length (requests (dispatch_chain (demo_world [Content ''five stars''])
                 (REPLEnvironment_init ''ctx'') () ''rating?'' None 3 0 demo_rlm)) \<le> 1"
proof -
  let ?w = "demo_world [Content ''five stars'']"
  let ?env = "REPLEnvironment_init ''ctx''"
  have d: "max_recursive_depth (config demo_rlm) = 1"
    by (simp add: demo_rlm_def demo_config_def)
  have run: "recursive_lm ?w ?env 0 () ''rating?'' None demo_rlm
       = (Inr ''five stars'',
          demo_rlm\<lparr>call_count := 1,
            requests :=
              [\<lparr>req_model = ''openai/gpt-4o-mini'',
                req_messages =
                  [\<lparr>role = ''system'',
                    content = ''You are a helpful assistant. Answer the query based on the provided context.''\<rparr>,
                   \<lparr>role = ''user'',
                    content = ''Query: rating?\<newline>\<newline>Context: ctx''\<rparr>],
                req_depth = 1\<rparr>]\<rparr>)"
    by (simp add: recursive_lm_def call_llm_def Let_def demo_world_def scripted_def demo_rlm_def
          demo_config_def REPLEnvironment_init_def NL_def)
  from recursive_lm_depth_cap [of demo_rlm 1 ?w ?env "()" "''rating?''" None 3] d
  have "recursive_lm ?w ?env 1 () ''rating?'' None demo_rlm
          = (Inr ''Max recursion depth reached'', demo_rlm)
      \<and> length (requests (dispatch_chain ?w ?env () ''rating?'' None 3 0 demo_rlm)) \<le> 1"
    by (simp add: demo_rlm_def)
  with d run show ?thesis by simp
qed

section \<open>C3: the contents of the \<open>FINAL\<close> marker\<close>

text \<open>
  C3, as the source has it. When the response holds \<open>FINAL(\<close> and a close parenthesis
  somewhere after its first occurrence, the group is the text between that first
  \<open>FINAL(\<close> and the first close parenthesis after it, line feeds included, and the
  pass ends the loop with the trimmed group as final answer.
\<close>

theorem final_answer_up_to_first_close:
  assumes "iterations s < max_iterations (config (self s))" and "final_answer s = None"
    and "post_chat w (length (requests (self s))) (primary_request s) = Content response"
    and "after_first ''FINAL('' response = Some rest" and "CHR '')'' \<in> set rest"
  shows "final_match response = Some (takeWhile (\<lambda>c. c \<noteq> CHR '')'') rest)
       \<and> while_loop w s =
           (None, (answered s)\<lparr>final_answer :=
                     Some (strip (takeWhile (\<lambda>c. c \<noteq> CHR '')'') rest))\<rparr>)"
proof -
  let ?g = "takeWhile (\<lambda>c. c \<noteq> CHR '')'') rest"
  from assms(4,5) have fm: "final_match response = Some ?g"
    by (simp add: final_match_first_close)
  then have "parse_directive response = FinalAnswer (strip ?g)"
    by (simp add: parse_directive_def)
  with loop_body_content [OF assms(3)]
  have "loop_body w s = (Break, (answered s)\<lparr>final_answer := Some (strip ?g)\<rparr>)"
    by (simp add: act_on_def)
  from while_loop_break [OF assms(1,2) this] fm show ?thesis by simp
qed

theorem final_answer_up_to_first_close_witness:
  "after_first ''FINAL('' ''Answer: FINAL( line one\<newline>line two ) bye''
     = Some '' line one\<newline>line two ) bye''
   \<and> CHR '')'' \<in> set '' line one\<newline>line two ) bye''
   \<and> fst (completion (demo_world [Content ''Answer: FINAL( line one\<newline>line two ) bye''])
            ''q'' ''ctx'' demo_rlm ())
       = Inr \<lparr>answer = ''line one\<newline>line two'', result_iterations = 1, repl_history = [],
               total_calls = 1,
               result_messages =
                 [\<lparr>role = ''system'', content = ''You are a Recursive Language Model (RLM)''\<rparr>,
                  \<lparr>role = ''user'', content = ''Query: q''\<rparr>]\<rparr>"
proof -
  let ?r = "''Answer: FINAL( line one\<newline>line two ) bye''"
  let ?w = "demo_world [Content ?r]"
  let ?s = "initial_state ?w ''q'' ''ctx'' demo_rlm ()"
  have h1: "iterations ?s < max_iterations (config (self ?s))"
    by (simp add: initial_state_def demo_rlm_def demo_config_def)
  have h2: "final_answer ?s = None" by (simp add: initial_state_def)
  have h3: "post_chat ?w (length (requests (self ?s))) (primary_request ?s) = Content ?r"
    by (simp add: initial_state_def demo_rlm_def demo_world_def scripted_def)
  have h4: "after_first ''FINAL('' ?r = Some '' line one\<newline>line two ) bye''"
    by simp
  have h5: "CHR '')'' \<in> set '' line one\<newline>line two ) bye''" by simp
  have st: "strip (takeWhile (\<lambda>c. c \<noteq> CHR '')'') '' line one\<newline>line two ) bye'')
              = ''line one\<newline>line two''"
    by (simp add: strip_def is_space_def)
  from final_answer_up_to_first_close [OF h1 h2 h3 h4 h5] st
  have "fst (completion ?w ''q'' ''ctx'' demo_rlm ())
       = Inr \<lparr>answer = ''line one\<newline>line two'', result_iterations = 1, repl_history = [],
               total_calls = 1,
               result_messages =
                 [\<lparr>role = ''system'', content = ''You are a Recursive Language Model (RLM)''\<rparr>,
                  \<lparr>role = ''user'', content = ''Query: q''\<rparr>]\<rparr>"
    by (simp add: completion_def result_of_def answered_def initial_state_def demo_rlm_def
          demo_world_def REPLEnvironment_init_def)
  with h4 h5 show ?thesis by blast
qed

text \<open>
  C3, as the claim states it, fails when the answer holds parentheses: the matching
  close of \<open>FINAL(f(x))\<close> is the last character, the source cuts at the first.
\<close>

theorem nested_parentheses_counterexample:
  "claimed_final_answer ''FINAL(f(x))'' = Some ''f(x)''
   \<and> fst (completion (demo_world [Content ''FINAL(f(x))'']) ''q'' ''ctx'' demo_rlm ())
       = Inr \<lparr>answer = ''f(x'', result_iterations = 1, repl_history = [], total_calls = 1,
               result_messages =
                 [\<lparr>role = ''system'', content = ''You are a Recursive Language Model (RLM)''\<rparr>,
                  \<lparr>role = ''user'', content = ''Query: q''\<rparr>]\<rparr>"
  by (simp add: run_simps strip_def is_space_def claimed_final_answer_def)

section \<open>C4: the precedence of the \<open>FINAL\<close> marker\<close>

text \<open>
  C4, as the source has it. A response with a \<open>FINAL\<close> marker is a final answer
  whatever else it holds: the pass ends the loop, the sandbox and the transcript are
  as they were (no code fence of the response was executed), and the final answer is
  the trimmed group. The answer returned is that text, unless it is empty: then
  \<open>final_answer or ...\<close> returns the no-answer text.
\<close>

theorem final_marker_precedence:
  assumes "iterations s < max_iterations (config (self s))" and "final_answer s = None"
    and "post_chat w (length (requests (self s))) (primary_request s) = Content response"
    and "final_match response = Some g"
  shows "parse_directive response = FinalAnswer (strip g)
       \<and> loop_body w s = act_on w response (parse_directive response) (answered s)
       \<and> while_loop w s = (None, (answered s)\<lparr>final_answer := Some (strip g)\<rparr>)
       \<and> repl ((answered s)\<lparr>final_answer := Some (strip g)\<rparr>) = repl s
       \<and> messages ((answered s)\<lparr>final_answer := Some (strip g)\<rparr>) = messages s
       \<and> answer (result_of ((answered s)\<lparr>final_answer := Some (strip g)\<rparr>))
           = (if strip g = [] then no_answer else strip g)"
proof -
  from assms(4) have d: "parse_directive response = FinalAnswer (strip g)"
    by (simp add: parse_directive_def)
  note body = loop_body_content [OF assms(3)]
  with d have "loop_body w s = (Break, (answered s)\<lparr>final_answer := Some (strip g)\<rparr>)"
    by (simp add: act_on_def)
  from while_loop_break [OF assms(1,2) this] d body show ?thesis
    by (simp add: result_of_def answered_def)
qed

theorem final_marker_precedence_witness:
  "final_match ''Done. FINAL( 42 ) ```python\<newline>x = 1\<newline>```'' = Some '' 42 ''
   \<and> find_code_blocks ''Done. FINAL( 42 ) ```python\<newline>x = 1\<newline>```'' = [''x = 1'']
   \<and> fst (completion
            (demo_world [Content ''Done. FINAL( 42 ) ```python\<newline>x = 1\<newline>```''])
            ''q'' ''ctx'' demo_rlm ())
       = Inr \<lparr>answer = ''42'', result_iterations = 1, repl_history = [], total_calls = 1,
               result_messages =
                 [\<lparr>role = ''system'', content = ''You are a Recursive Language Model (RLM)''\<rparr>,
                  \<lparr>role = ''user'', content = ''Query: q''\<rparr>]\<rparr>"
proof -
  let ?r = "''Done. FINAL( 42 ) ```python\<newline>x = 1\<newline>```''"
  let ?w = "demo_world [Content ?r]"
  let ?s = "initial_state ?w ''q'' ''ctx'' demo_rlm ()"
  have h1: "iterations ?s < max_iterations (config (self ?s))"
    by (simp add: initial_state_def demo_rlm_def demo_config_def)
  have h2: "final_answer ?s = None" by (simp add: initial_state_def)
  have h3: "post_chat ?w (length (requests (self ?s))) (primary_request ?s) = Content ?r"
    by (simp add: initial_state_def demo_rlm_def demo_world_def scripted_def)
  have h4: "final_match ?r = Some '' 42 ''"
    by (simp add: final_match_def match_here_def)
  have blocks: "find_code_blocks ?r = [''x = 1'']"
    by (simp add: find_code_blocks_def re_findall_def match_here_def NL_def)
  have st: "strip '' 42 '' = ''42''" by (simp add: strip_def is_space_def)
  from final_marker_precedence [OF h1 h2 h3 h4] st
  have "fst (completion ?w ''q'' ''ctx'' demo_rlm ())
       = Inr \<lparr>answer = ''42'', result_iterations = 1, repl_history = [], total_calls = 1,
               result_messages =
                 [\<lparr>role = ''system'', content = ''You are a Recursive Language Model (RLM)''\<rparr>,
                  \<lparr>role = ''user'', content = ''Query: q''\<rparr>]\<rparr>"
    by (simp add: completion_def result_of_def answered_def initial_state_def demo_rlm_def
          demo_world_def REPLEnvironment_init_def)
  with h4 blocks show ?thesis by blast
qed

text \<open>
  C4, as the claim states it, fails for a marker with nothing in it: the run ends at
  this response, and the answer is not the empty final answer but the no-answer text.
\<close>

theorem empty_final_marker_counterexample:
  "final_match ''FINAL()'' = Some []
   \<and> fst (completion (demo_world [Content ''FINAL()'']) ''q'' ''ctx'' demo_rlm ())
       = Inr \<lparr>answer = ''No final answer provided within iteration limit'',
               result_iterations = 1, repl_history = [], total_calls = 1,
               result_messages =
                 [\<lparr>role = ''system'', content = ''You are a Recursive Language Model (RLM)''\<rparr>,
                  \<lparr>role = ''user'', content = ''Query: q''\<rparr>]\<rparr>"
  by (simp add: run_simps strip_def)

section \<open>C5: code fences and the transcript\<close>

text \<open>
  C5, as the source has it. In a pass whose response has no final marker and \<open>k\<close>
  code fences, and in which every \<open>execute\<close> returns, the snippets are executed in
  the order of the response (the history grows by their \<open>k\<close> records, in order), and
  the transcript grows by \<open>2 * k\<close> messages: for each snippet the assistant response,
  then the result of that snippet.
\<close>

theorem code_blocks_transcript:
  assumes "post_chat w (length (requests (self s))) (primary_request s) = Content response"
    and "final_match response = None" and "final_var_match response = None"
    and "find_code_blocks response \<noteq> []"
    and "loop_body w s = (Next, s')"
  shows "\<exists>results. length results = length (find_code_blocks response)
       \<and> messages s' = messages s @ concat (map (exchange w response) results)
       \<and> length (messages s') = length (messages s) + 2 * length (find_code_blocks response)
       \<and> execution_history (repl s')
            = execution_history (repl s)
                @ map (\<lambda>(b, r). \<lparr>code = b, result = r\<rparr>) (zip (find_code_blocks response) results)"
proof -
  from assms(2,3,4) have "parse_directive response = CodeBlocks (find_code_blocks response)"
    by (simp add: parse_directive_def)
  with loop_body_content [OF assms(1)] assms(5)
  have "run_code_blocks w response (find_code_blocks response) (answered s) = (Next, s')"
    by (simp add: act_on_def)
  from run_code_blocks_transcript [OF this] obtain results where r:
    "length results = length (find_code_blocks response)"
    "messages s' = messages (answered s) @ concat (map (exchange w response) results)"
    "execution_history (repl s')
       = execution_history (repl (answered s))
           @ map (\<lambda>(b, r). \<lparr>code = b, result = r\<rparr>) (zip (find_code_blocks response) results)"
    by blast
  have "messages (answered s) = messages s" "repl (answered s) = repl s"
    by (simp_all add: answered_def)
  with r length_concat_exchange [of w response results] show ?thesis
    by (intro exI [of _ results]) simp
qed

theorem code_blocks_transcript_witness:
  "find_code_blocks ''```python\<newline>x = 1\<newline>```\<newline>```python\<newline>y = 2\<newline>```''
     = [''x = 1'', ''y = 2'']
   \<and> fst (loop_body
            (demo_world [Content ''```python\<newline>x = 1\<newline>```\<newline>```python\<newline>y = 2\<newline>```''])
            (initial_state
               (demo_world [Content ''```python\<newline>x = 1\<newline>```\<newline>```python\<newline>y = 2\<newline>```''])
               ''q'' ''ctx'' demo_rlm ())) = Next
   \<and> length (messages (snd (loop_body
            (demo_world [Content ''```python\<newline>x = 1\<newline>```\<newline>```python\<newline>y = 2\<newline>```''])
            (initial_state
               (demo_world [Content ''```python\<newline>x = 1\<newline>```\<newline>```python\<newline>y = 2\<newline>```''])
               ''q'' ''ctx'' demo_rlm ())))) = 2 + 2 * 2"
proof -
  let ?r = "''```python\<newline>x = 1\<newline>```\<newline>```python\<newline>y = 2\<newline>```''"
  let ?w = "demo_world [Content ?r]"
  let ?s = "initial_state ?w ''q'' ''ctx'' demo_rlm ()"
  have h1: "post_chat ?w (length (requests (self ?s))) (primary_request ?s) = Content ?r"
    by (simp add: initial_state_def demo_rlm_def demo_world_def scripted_def)
  have h2: "final_match ?r = None" by (simp add: final_match_def match_here_def)
  have h3: "final_var_match ?r = None" by (simp add: final_var_match_def match_here_def)
  have blocks: "find_code_blocks ?r = [''x = 1'', ''y = 2'']"
    by (simp add: find_code_blocks_def re_findall_def match_here_def NL_def)
  then have h4: "find_code_blocks ?r \<noteq> []" by simp
  have nxt: "fst (loop_body ?w ?s) = Next"
    by (simp add: run_simps exec_simps)
  then have h5: "loop_body ?w ?s = (Next, snd (loop_body ?w ?s))"
    by (metis prod.collapse)
  from code_blocks_transcript [OF h1 h2 h3 h4 h5] blocks
  have "length (messages (snd (loop_body ?w ?s))) = 2 + 2 * 2"
    by (auto simp: initial_state_def)
  with blocks nxt show ?thesis by blast
qed

text \<open>
  C5, as the claim states it, fails for two snippets: the assistant response is in
  the transcript twice, and the transcript has grown by four messages, not three.
\<close>

theorem assistant_repeated_counterexample:
  "find_code_blocks ''```python\<newline>x = 1\<newline>```\<newline>```python\<newline>y = 2\<newline>```''
     = [''x = 1'', ''y = 2'']
   \<and> map_sum id result_messages
        (fst (completion
                (demo_world
                   [Content ''```python\<newline>x = 1\<newline>```\<newline>```python\<newline>y = 2\<newline>```'',
                    Content ''FINAL(done)''])
                ''q'' ''ctx'' demo_rlm ()))
       = Inr [\<lparr>role = ''system'', content = ''You are a Recursive Language Model (RLM)''\<rparr>,
              \<lparr>role = ''user'', content = ''Query: q''\<rparr>,
              \<lparr>role = ''assistant'',
               content = ''```python\<newline>x = 1\<newline>```\<newline>```python\<newline>y = 2\<newline>```''\<rparr>,
              \<lparr>role = ''user'', content = ''Execution result: {success: true}''\<rparr>,
              \<lparr>role = ''assistant'',
               content = ''```python\<newline>x = 1\<newline>```\<newline>```python\<newline>y = 2\<newline>```''\<rparr>,
              \<lparr>role = ''user'', content = ''Execution result: {success: true}''\<rparr>]"
  by (simp add: run_simps exec_simps strip_def is_space_def)

section \<open>C6: the call counter\<close>




section \<open>C7: the iteration budget\<close>

text \<open>
  C7. Whatever way \<open>completion\<close> ends, the requests it has sent are requests to the
  root model at depth 0, and there are at most \<open>max_iterations\<close> of them (none when
  \<open>max_iterations\<close> is zero or negative). When it returns, the answer is never the
  empty string, and when the loop ended with \<open>final_answer\<close> still \<open>None\<close> the answer is
  the text \<open>No final answer provided within iteration limit\<close>.
\<close>

theorem completion_iteration_budget:
  assumes "completion w query c slf h = (out, slf', h')"
  shows "\<exists>new. requests slf' = requests slf @ new
           \<and> list_all (\<lambda>q. req_model q = root_model (config slf) \<and> req_depth q = 0) new
           \<and> int (length new) \<le> max 0 (max_iterations (config slf))
           \<and> (\<forall>r. out = Inr r \<longrightarrow>
                 answer r \<noteq> []
                 \<and> (final_answer (snd (while_loop w (initial_state w query c slf h))) = None
                      \<longrightarrow> answer r = no_answer))"
proof -
  let ?s0 = "initial_state w query c slf h"
  obtain err s where loop: "while_loop w ?s0 = (err, s)" by (cases "while_loop w ?s0")
  have s0: "self ?s0 = slf" "iterations ?s0 = 0"
    by (simp_all add: initial_state_def)
  from assms loop have slf': "slf' = self s"
    by (auto simp: completion_def split: option.splits)
  from while_loop_trace [OF loop] s0 obtain new where new:
    "requests (self s) = requests slf @ new"
    "int (length new) = iterations s"
    "list_all (\<lambda>q. req_model q = root_model (config slf) \<and> req_depth q = 0) new"
    and bound: "iterations s \<le> max 0 (max_iterations (config slf))"
    by auto
  have ans: "\<forall>r. out = Inr r \<longrightarrow>
                 answer r \<noteq> []
                 \<and> (final_answer (snd (while_loop w ?s0)) = None \<longrightarrow> answer r = no_answer)"
    using assms loop answer_not_empty [of s]
    by (auto simp: completion_def result_of_def split: option.splits)
  from new bound slf' ans show ?thesis by auto
qed

theorem completion_iteration_budget_witness:
  "fst (completion (demo_world [Content ''hm'', Content ''ok'', Content ''FINAL(late)'']) ''q'' ''ctx''
       (demo_rlm\<lparr>config := demo_config\<lparr>max_iterations := 2\<rparr>\<rparr>) ())
     = Inr \<lparr>answer = ''No final answer provided within iteration limit'',
             result_iterations = 2, repl_history = [], total_calls = 2,
             result_messages =
               [\<lparr>role = ''system'', content = ''You are a Recursive Language Model (RLM)''\<rparr>,
                \<lparr>role = ''user'', content = ''Query: q''\<rparr>,
                \<lparr>role = ''assistant'', content = ''hm''\<rparr>,
                \<lparr>role = ''user'', content = ''Continue with your analysis or provide FINAL(answer).''\<rparr>,
                \<lparr>role = ''assistant'', content = ''ok''\<rparr>,
                \<lparr>role = ''user'', content = ''Continue with your analysis or provide FINAL(answer).''\<rparr>]\<rparr>
   \<and> final_answer (snd (while_loop
         (demo_world [Content ''hm'', Content ''ok'', Content ''FINAL(late)''])
         (initial_state (demo_world [Content ''hm'', Content ''ok'', Content ''FINAL(late)''])
            ''q'' ''ctx'' (demo_rlm\<lparr>config := demo_config\<lparr>max_iterations := 2\<rparr>\<rparr>) ()))) = None
   \<and> (\<exists>new. requests (fst (snd (completion
                 (demo_world [Content ''hm'', Content ''ok'', Content ''FINAL(late)''])
                 ''q'' ''ctx'' (demo_rlm\<lparr>config := demo_config\<lparr>max_iterations := 2\<rparr>\<rparr>) ()))) = new
          \<and> list_all (\<lambda>q. req_model q = ''openai/gpt-4o'' \<and> req_depth q = 0) new
          \<and> int (length new) \<le> 2)"
proof -
  let ?w = "demo_world [Content ''hm'', Content ''ok'', Content ''FINAL(late)'']"
  let ?slf = "demo_rlm\<lparr>config := demo_config\<lparr>max_iterations := 2\<rparr>\<rparr>"
  let ?run = "completion ?w ''q'' ''ctx'' ?slf ()"
  have out: "fst ?run
     = Inr \<lparr>answer = ''No final answer provided within iteration limit'',
             result_iterations = 2, repl_history = [], total_calls = 2,
             result_messages =
               [\<lparr>role = ''system'', content = ''You are a Recursive Language Model (RLM)''\<rparr>,
                \<lparr>role = ''user'', content = ''Query: q''\<rparr>,
                \<lparr>role = ''assistant'', content = ''hm''\<rparr>,
                \<lparr>role = ''user'', content = ''Continue with your analysis or provide FINAL(answer).''\<rparr>,
                \<lparr>role = ''assistant'', content = ''ok''\<rparr>,
                \<lparr>role = ''user'', content = ''Continue with your analysis or provide FINAL(answer).''\<rparr>]\<rparr>"
    by (simp add: run_simps)
  have fin: "final_answer (snd (while_loop ?w (initial_state ?w ''q'' ''ctx'' ?slf ()))) = None"
    by (simp add: run_simps)
  obtain out slf' h' where run: "?run = (out, slf', h')" by (cases ?run)
  then have proj: "slf' = fst (snd ?run)" by simp
  from completion_iteration_budget [OF run] proj
  have "\<exists>new. requests (fst (snd ?run)) = new
          \<and> list_all (\<lambda>q. req_model q = ''openai/gpt-4o'' \<and> req_depth q = 0) new
          \<and> int (length new) \<le> 2"
    by (auto simp: demo_rlm_def demo_config_def)
  with out fin show ?thesis by blast
qed

section \<open>C8: what \<open>execute\<close> records\<close>




section \<open>C9: \<open>FINAL_VAR\<close> of a variable that is not there\<close>

text \<open>
  C9. A pass whose response has no \<open>FINAL\<close> marker and a \<open>FINAL_VAR\<close> marker naming a
  variable the store does not hold ends the loop without a failure; the final answer
  is \<open>str(None)\<close>, the text \<open>None\<close>, and that is the answer returned.
\<close>

theorem final_var_missing_variable:
  assumes "iterations s < max_iterations (config (self s))" and "final_answer s = None"
    and "post_chat w (length (requests (self s))) (primary_request s) = Content response"
    and "final_match response = None" and "final_var_match response = Some name"
    and "variables (repl s) (strip name) = None"
  shows "while_loop w s = (None, (answered s)\<lparr>final_answer := Some ''None''\<rparr>)
       \<and> answer (result_of ((answered s)\<lparr>final_answer := Some ''None''\<rparr>)) = ''None''"
proof -
  from assms(4,5) have "parse_directive response = FinalVarRef (strip name)"
    by (simp add: parse_directive_def)
  with loop_body_content [OF assms(3)] assms(6)
  have "loop_body w s = (Break, (answered s)\<lparr>final_answer := Some ''None''\<rparr>)"
    by (simp add: act_on_def answered_def get_variable_def str_optional_def)
  from while_loop_break [OF assms(1,2) this] show ?thesis
    by (simp add: result_of_def)
qed

theorem final_var_missing_variable_witness:
  "final_match ''FINAL_VAR(total)'' = None
   \<and> final_var_match ''FINAL_VAR(total)'' = Some ''total''
   \<and> variables (repl (initial_state (demo_world [Content ''FINAL_VAR(total)'']) ''q'' ''ctx''
                        demo_rlm ())) (strip ''total'') = None
   \<and> fst (completion (demo_world [Content ''FINAL_VAR(total)'']) ''q'' ''ctx'' demo_rlm ())
       = Inr \<lparr>answer = ''None'', result_iterations = 1, repl_history = [], total_calls = 1,
               result_messages =
                 [\<lparr>role = ''system'', content = ''You are a Recursive Language Model (RLM)''\<rparr>,
                  \<lparr>role = ''user'', content = ''Query: q''\<rparr>]\<rparr>"
proof -
  let ?w = "demo_world [Content ''FINAL_VAR(total)'']"
  let ?s = "initial_state ?w ''q'' ''ctx'' demo_rlm ()"
  have h1: "iterations ?s < max_iterations (config (self ?s))"
    by (simp add: initial_state_def demo_rlm_def demo_config_def)
  have h2: "final_answer ?s = None" by (simp add: initial_state_def)
  have h3: "post_chat ?w (length (requests (self ?s))) (primary_request ?s)
              = Content ''FINAL_VAR(total)''"
    by (simp add: initial_state_def demo_rlm_def demo_world_def scripted_def)
  have h4: "final_match ''FINAL_VAR(total)'' = None"
    by (simp add: final_match_def match_here_def)
  have h5: "final_var_match ''FINAL_VAR(total)'' = Some ''total''"
    by (simp add: final_var_match_def match_here_def NL_def)
  have h6: "variables (repl ?s) (strip ''total'') = None"
    by (simp add: initial_state_def REPLEnvironment_init_def strip_def is_space_def)
  from final_var_missing_variable [OF h1 h2 h3 h4 h5 h6]
  have "fst (completion ?w ''q'' ''ctx'' demo_rlm ())
       = Inr \<lparr>answer = ''None'', result_iterations = 1, repl_history = [], total_calls = 1,
               result_messages =
                 [\<lparr>role = ''system'', content = ''You are a Recursive Language Model (RLM)''\<rparr>,
                  \<lparr>role = ''user'', content = ''Query: q''\<rparr>]\<rparr>"
    by (simp add: completion_def result_of_def answered_def initial_state_def demo_rlm_def
          demo_world_def REPLEnvironment_init_def)
  with h4 h5 h6 show ?thesis by blast
qed

section \<open>C10: a failed snippet and the variable store\<close>

text \<open>
  C10. When the record that \<open>execute\<close> returns has a false success flag, the variable
  store is the one from before the call: no name was added, removed or rebound.
  (The objects the names refer to live in the heap, which the failed snippet may
  have changed.)
\<close>

theorem failed_execute_keeps_variables:
  assumes "execute w snippet env h = (Inr r, env', h')" and "\<not> success r"
  shows "variables env' = variables env"
  using assms
  by (auto simp: execute_def Let_def split: exec_outcome.splits raised.splits)

theorem failed_execute_keeps_variables_witness:
  "execute (demo_world []) ''x = 1 / 0'' (REPLEnvironment_init ''Review A: 5/5'') ()
     = (Inr \<lparr>success = False, result_output = None, result_error = Some ''division by zero'',
              result_variables = Map.empty\<rparr>,
        \<lparr>repl_context = ''Review A: 5/5'', variables = [''context'' \<mapsto> ''Review A: 5/5''],
         execution_history =
           [\<lparr>code = ''x = 1 / 0'',
             result = \<lparr>success = False, result_output = None,
                       result_error = Some ''division by zero'', result_variables = Map.empty\<rparr>\<rparr>]\<rparr>,
        ())
   \<and> variables \<lparr>repl_context = ''Review A: 5/5'', variables = [''context'' \<mapsto> ''Review A: 5/5''],
         execution_history =
           [\<lparr>code = ''x = 1 / 0'',
             result = \<lparr>success = False, result_output = None,
                       result_error = Some ''division by zero'', result_variables = Map.empty\<rparr>\<rparr>]\<rparr>
       = variables (REPLEnvironment_init ''Review A: 5/5'')"
proof -
  have run: "execute (demo_world []) ''x = 1 / 0'' (REPLEnvironment_init ''Review A: 5/5'') ()
     = (Inr \<lparr>success = False, result_output = None, result_error = Some ''division by zero'',
              result_variables = Map.empty\<rparr>,
        \<lparr>repl_context = ''Review A: 5/5'', variables = [''context'' \<mapsto> ''Review A: 5/5''],
         execution_history =
           [\<lparr>code = ''x = 1 / 0'',
             result = \<lparr>success = False, result_output = None,
                       result_error = Some ''division by zero'', result_variables = Map.empty\<rparr>\<rparr>]\<rparr>,
        ())"
    by (simp add: execute_def Let_def demo_world_def demo_exec_def REPLEnvironment_init_def)
  from failed_execute_keeps_variables [OF run] run show ?thesis by simp
qed

end
